theory Spec2Isabelle
  imports Complex_Main "HOL-Library.Word"
begin

section \<open>Python values, exceptions and the library calls of \<open>disk_cleaner.py\<close>\<close>

text \<open>
  The exceptions that the library calls used by the worker pool can raise:
  \<open>queue.Empty\<close> (a timed \<open>get\<close> on an empty queue), \<open>ValueError\<close>
  (\<open>random.randint\<close> on an empty range) and \<open>IndexError\<close> (list indexing).
\<close>

datatype exn = Empty | ValueError | IndexError

text \<open>
  The Python values that occur as task results and as dictionary keys. A float is only
  ever produced by \<open>random.random()\<close> and only ever compared, so it is kept as the
  rational number it denotes.
\<close>

datatype pyval = PyInt int | PyStr string | PyFloat rat

type_synonym byte = "8 word"

subsection \<open>The \<open>random\<close> module\<close>

text \<open>
  The generator is an oracle: a tape of raw draws and a read position. Every call consumes
  one entry. \<open>random.randint(a, b)\<close> raises \<open>ValueError\<close> on an empty range and
  otherwise returns \<open>a + randbelow(b - a + 1)\<close>; \<open>random.random()\<close> returns a
  multiple of \<open>2 ^ -53\<close> in \<open>[0, 1)\<close>. Quantifying over the tape quantifies over
  every outcome of the draws.
\<close>

record rng =
  tape :: "nat \<Rightarrow> nat"
  pos :: nat

definition next_raw :: "rng \<Rightarrow> nat \<times> rng" where
  "next_raw g = (tape g (pos g), g\<lparr>pos := Suc (pos g)\<rparr>)"

definition random_randint :: "int \<Rightarrow> int \<Rightarrow> rng \<Rightarrow> (exn + int) \<times> rng" where
  "random_randint a b g =
     (if b < a then (Inl ValueError, g)
      else (case next_raw g of (r, g') \<Rightarrow> (Inr (a + int r mod (b - a + 1)), g')))"

definition random_random :: "rng \<Rightarrow> rat \<times> rng" where
  "random_random g =
     (case next_raw g of (r, g') \<Rightarrow> (Fract (int (r mod 2 ^ 53)) (2 ^ 53), g'))"

subsection \<open>\<open>str\<close>, \<open>encode\<close>, \<open>hexdigest\<close>, indexing\<close>

definition digit_char :: "nat \<Rightarrow> char" where
  "digit_char n = char_of (48 + n)"

function str_nat :: "nat \<Rightarrow> string" where
  "str_nat n = (if n < 10 then [digit_char n] else str_nat (n div 10) @ [digit_char (n mod 10)])"
  by pat_completeness auto
termination
  by (relation "measure id") auto

declare str_nat.simps [simp del]

definition decimal :: "int \<Rightarrow> string" where
  "decimal i = (if i < 0 then CHR ''-'' # str_nat (nat (- i)) else str_nat (nat i))"

text \<open>
  \<open>str(i)\<close> and the formatting of an integer in an f-string. CPython limits the
  conversion of an integer to a decimal string: with the default limit of 4300 digits
  (\<open>sys.int_info.default_max_str_digits\<close>) an integer of more digits raises
  \<open>ValueError\<close>.
\<close>

definition py_str_int :: "int \<Rightarrow> exn + string" where
  "py_str_int i =
     (if 4300 < length (str_nat (nat \<bar>i\<bar>)) then Inl ValueError else Inr (decimal i))"

definition encode :: "string \<Rightarrow> byte list" where
  "encode s = map (\<lambda>c. of_char c) s"

definition hexchar :: "nat \<Rightarrow> char" where
  "hexchar n = ''0123456789abcdef'' ! n"

definition hexdigest :: "byte list \<Rightarrow> string" where
  "hexdigest bs = concat (map (\<lambda>b. [hexchar (unat b div 16), hexchar (unat b mod 16)]) bs)"

text \<open>
  Indexing a list, \<open>xs[i]\<close>: \<open>IndexError\<close> unless \<open>-len(xs) \<le> i < len(xs)\<close>;
  an index below zero is taken from the end of the list.
\<close>

definition list_index :: "'a list \<Rightarrow> int \<Rightarrow> exn + 'a" where
  "list_index xs i =
     (if i < - int (length xs) \<or> int (length xs) \<le> i then Inl IndexError
      else Inr (xs ! nat (if i < 0 then i + int (length xs) else i)))"

section \<open>Tasks and \<open>process_task\<close>\<close>

text \<open>
  A task is the dictionary that \<open>main\<close> puts on the queue: the keys \<open>'type'\<close>
  (a string), \<open>'id'\<close> (an integer) and \<open>'timestamp'\<close>, each of which may be absent
  (\<open>None\<close> here), as \<open>task.get(key, default)\<close> allows.
\<close>

record task =
  type_field :: "string option"
  id_field :: "int option"
  timestamp_field :: "rat option"

text \<open>\<open>[random.randint(1, 100) for _ in range(n)]\<close>, the draws in the order they are made.\<close>

fun randint_draws :: "nat \<Rightarrow> rng \<Rightarrow> (exn + int list) \<times> rng" where
  "randint_draws 0 g = (Inr [], g)"
| "randint_draws (Suc n) g =
     (case random_randint 1 100 g of
        (Inl e, g1) \<Rightarrow> (Inl e, g1)
      | (Inr x, g1) \<Rightarrow>
          (case randint_draws n g1 of
             (Inl e, g2) \<Rightarrow> (Inl e, g2)
           | (Inr xs, g2) \<Rightarrow> (Inr (x # xs), g2)))"

text \<open>\<open>[random.random() for _ in range(n)]\<close>.\<close>

fun random_draws :: "nat \<Rightarrow> rng \<Rightarrow> rat list \<times> rng" where
  "random_draws 0 g = ([], g)"
| "random_draws (Suc n) g =
     (case random_random g of (x, g1) \<Rightarrow>
        (case random_draws n g1 of (xs, g2) \<Rightarrow> (x # xs, g2)))"

text \<open>
  \<open>process_task\<close>. The digest function of \<open>hashlib\<close> is the parameter \<open>sha256\<close>.
  The default of \<open>task.get('id', random.randint(1, 1000000))\<close> is an argument, so it is
  evaluated, and a draw is consumed, whether or not the key is present.
\<close>

definition process_task ::
  "(byte list \<Rightarrow> byte list) \<Rightarrow> rng \<Rightarrow> task \<Rightarrow> nat \<Rightarrow> (exn + pyval) \<times> rng" where
  "process_task sha256 g task worker_id =
     (let task_type = (case type_field task of None \<Rightarrow> ''unknown'' | Some s \<Rightarrow> s)
      in case random_randint 1 1000000 g of
           (Inl e, g1) \<Rightarrow> (Inl e, g1)
         | (Inr d, g1) \<Rightarrow>
             (let task_id = (case id_field task of None \<Rightarrow> d | Some i \<Rightarrow> i)
              in if task_type = ''hash'' then
                   (case py_str_int task_id of
                      Inl e \<Rightarrow> (Inl e, g1)
                    | Inr str \<Rightarrow> (Inr (PyStr (hexdigest (sha256 (encode str)))), g1))
                 else if task_type = ''math'' then
                   (case randint_draws 1000 g1 of
                      (Inl e, g2) \<Rightarrow> (Inl e, g2)
                    | (Inr xs, g2) \<Rightarrow> (Inr (PyInt (sum_list xs)), g2))
                 else if task_type = ''sort'' then
                   (case random_draws 5000 g1 of (arr, g2) \<Rightarrow>
                      (case list_index (sort arr) (int (length arr) div 2) of
                         Inl e \<Rightarrow> (Inl e, g2)
                       | Inr x \<Rightarrow> (Inr (PyFloat x), g2)))
                 else
                   (case random_random g1 of (x, g2) \<Rightarrow> (Inr (PyFloat x), g2))))"

text \<open>The generator as \<open>process_task\<close> finds it after the draw for the default id.\<close>

definition after_id_draw :: "rng \<Rightarrow> rng" where
  "after_id_draw g = snd (next_raw g)"

text \<open>The array that the \<open>'sort'\<close> branch generates.\<close>

definition sort_array :: "rng \<Rightarrow> rat list" where
  "sort_array g = fst (random_draws 5000 (after_id_draw g))"


text \<open>
  The lower median in the words of the specification: the element of the sorted array at the
  lower of the two middle positions when the length is even.
\<close>

definition lower_median :: "rat list \<Rightarrow> rat" where
  "lower_median xs = sort xs ! ((length xs - 1) div 2)"

text \<open>The inputs used for concrete runs: the tape \<open>0, 1, 2, \<dots>\<close> and three tasks.\<close>

definition counting_rng :: rng where
  "counting_rng = \<lparr>tape = id, pos = 0\<rparr>"

definition sort_task :: task where
  "sort_task = \<lparr>type_field = Some ''sort'', id_field = Some 7, timestamp_field = None\<rparr>"


definition hash_task :: "int \<Rightarrow> task" where
  "hash_task i = \<lparr>type_field = Some ''hash'', id_field = Some i, timestamp_field = None\<rparr>"

text \<open>An integer of 4301 decimal digits.\<close>

definition huge_id :: int where
  "huge_id = 10 ^ 4300"

text \<open>The id of the task, when it has one, has at most 4300 decimal digits.\<close>

definition short_id :: "task \<Rightarrow> bool" where
  "short_id t = (case id_field t of None \<Rightarrow> True | Some i \<Rightarrow> length (str_nat (nat \<bar>i\<bar>)) \<le> 4300)"

definition empty_task :: task where
  "empty_task = \<lparr>type_field = None, id_field = None, timestamp_field = None\<rparr>"

section \<open>The queue, the metrics and the worker pool\<close>

subsection \<open>\<open>queue.Queue\<close>\<close>

text \<open>
  An unbounded \<open>queue.Queue\<close>: \<open>put\<close> appends at the tail and counts the task in
  \<open>unfinished_tasks\<close> (nothing here calls \<open>task_done\<close>); \<open>get(timeout=1)\<close>
  removes the head, and raises \<open>queue.Empty\<close> when the queue is still empty at the end
  of the timeout.
\<close>

record queue =
  items :: "task list"
  unfinished_tasks :: nat

definition new_queue :: queue where
  "new_queue = \<lparr>items = [], unfinished_tasks = 0\<rparr>"

definition queue_put :: "queue \<Rightarrow> task \<Rightarrow> queue" where
  "queue_put q t = q\<lparr>items := items q @ [t], unfinished_tasks := Suc (unfinished_tasks q)\<rparr>"

definition queue_get :: "queue \<Rightarrow> (exn + task) \<times> queue" where
  "queue_get q = (case items q of [] \<Rightarrow> (Inl Empty, q) | t # ts \<Rightarrow> (Inr t, q\<lparr>items := ts\<rparr>))"

text \<open>\<open>n\<close> successive calls of \<open>get\<close> by a single consumer, with what each returned.\<close>

fun queue_gets :: "nat \<Rightarrow> queue \<Rightarrow> (exn + task) list \<times> queue" where
  "queue_gets 0 q = ([], q)"
| "queue_gets (Suc n) q =
     (case queue_get q of (r, q1) \<Rightarrow>
        (case queue_gets n q1 of (rs, q2) \<Rightarrow> (r # rs, q2)))"

subsection \<open>\<open>self.metrics\<close>\<close>

text \<open>
  \<open>defaultdict(list)\<close>, in insertion order. \<open>self.metrics[key].append(result)\<close>
  creates the empty list under a key that is not there yet, then appends.
\<close>

type_synonym metrics = "(pyval \<times> pyval list) list"

fun metrics_append :: "metrics \<Rightarrow> pyval \<Rightarrow> pyval \<Rightarrow> metrics" where
  "metrics_append [] key r = [(key, [r])]"
| "metrics_append ((k, rs) # m) key r =
     (if k = key then (k, rs @ [r]) # m else (k, rs) # metrics_append m key r)"


text \<open>The key \<open>f'worker_{worker_id}'\<close>.\<close>

definition worker_key :: "nat \<Rightarrow> exn + pyval" where
  "worker_key worker_id =
     (case py_str_int (int worker_id) of
        Inl e \<Rightarrow> Inl e
      | Inr str \<Rightarrow> Inr (PyStr (''worker_'' @ str)))"


subsection \<open>Threads and the analyzer\<close>

text \<open>
  Where a worker thread stands in \<open>worker_function\<close>: at the loop test, in
  \<open>get\<close>, in \<open>process_task\<close> with the task it took, about to append its result,
  returned from the loop, or ended by an exception that nothing caught.
\<close>

datatype pc = LoopHead | Getting | Executing task | Recording pyval | Terminated | Died exn

record thread =
  worker_id :: nat
  daemon :: bool
  pc :: pc

record analyzer =
  cpu_count :: nat
  metrics :: metrics
  event_queue :: queue
  workers :: "thread list"
  running :: bool
  random_state :: rng

text \<open>
  \<open>SystemAnalyzer.__init__\<close>, given what \<open>os.cpu_count()\<close> returned and the state
  of the \<open>random\<close> module: \<open>self.cpu_count = os.cpu_count() or 1\<close>.
\<close>

definition init :: "nat option \<Rightarrow> rng \<Rightarrow> analyzer" where
  "init os_cpu_count g =
     \<lparr>cpu_count = (case os_cpu_count of None \<Rightarrow> 1 | Some n \<Rightarrow> if n = 0 then 1 else n),
      metrics = [], event_queue = new_queue, workers = [], running = True, random_state = g\<rparr>"

text \<open>One turn of the loop in \<open>start_workers\<close>: create thread \<open>i\<close>, start it, keep the handle.\<close>

definition spawn :: "analyzer \<Rightarrow> nat \<Rightarrow> analyzer" where
  "spawn s i = s\<lparr>workers := workers s @ [\<lparr>worker_id = i, daemon = True, pc = LoopHead\<rparr>]\<rparr>"

text \<open>
  \<open>start_workers\<close>: \<open>for i in range(min(count, self.cpu_count))\<close>. The range of a
  negative number is empty, which \<open>nat\<close> gives.
\<close>

definition start_workers :: "int \<Rightarrow> analyzer \<Rightarrow> analyzer" where
  "start_workers count s = foldl spawn s [0..<nat (min count (int (cpu_count s)))]"

text \<open>
  \<open>stop_workers\<close>: clear the flag; the joins, each with a timeout, wait and change
  nothing.
\<close>

definition stop_workers :: "analyzer \<Rightarrow> analyzer" where
  "stop_workers s = s\<lparr>running := False\<rparr>"

definition set_pc :: "nat \<Rightarrow> pc \<Rightarrow> analyzer \<Rightarrow> analyzer" where
  "set_pc k p s = s\<lparr>workers := (workers s)[k := (workers s ! k)\<lparr>pc := p\<rparr>]\<rparr>"

text \<open>
  The \<open>try\<close> statement of the loop body: \<open>except queue.Empty: continue\<close> takes the
  thread back to the loop test; any other exception leaves \<open>worker_function\<close> and ends
  the thread.
\<close>

definition handler :: "exn \<Rightarrow> pc" where
  "handler e = (if e = Empty then LoopHead else Died e)"

text \<open>
  One step of the thread with handle \<open>k\<close>. The call of \<open>self.process_task\<close> is the
  parameter \<open>proc\<close>, so that a computation that fails can be put in its place.
\<close>

definition worker_step ::
  "(rng \<Rightarrow> task \<Rightarrow> nat \<Rightarrow> (exn + pyval) \<times> rng) \<Rightarrow> nat \<Rightarrow> analyzer \<Rightarrow> analyzer" where
  "worker_step proc k s =
     (if length (workers s) \<le> k then s
      else
        (case pc (workers s ! k) of
           LoopHead \<Rightarrow> set_pc k (if running s then Getting else Terminated) s
         | Getting \<Rightarrow>
             (case queue_get (event_queue s) of
                (Inl e, q) \<Rightarrow> set_pc k (handler e) (s\<lparr>event_queue := q\<rparr>)
              | (Inr task, q) \<Rightarrow> set_pc k (Executing task) (s\<lparr>event_queue := q\<rparr>))
         | Executing task \<Rightarrow>
             (case proc (random_state s) task (worker_id (workers s ! k)) of
                (Inl e, g) \<Rightarrow> set_pc k (handler e) (s\<lparr>random_state := g\<rparr>)
              | (Inr result, g) \<Rightarrow> set_pc k (Recording result) (s\<lparr>random_state := g\<rparr>))
         | Recording result \<Rightarrow>
             (case worker_key (worker_id (workers s ! k)) of
                Inl e \<Rightarrow> set_pc k (handler e) s
              | Inr key \<Rightarrow>
                  set_pc k LoopHead (s\<lparr>metrics := metrics_append (metrics s) key result\<rparr>))
         | Terminated \<Rightarrow> s
         | Died e \<Rightarrow> s))"

text \<open>
  What can happen next: the main thread calls \<open>start_workers\<close>, puts a task on the
  queue or calls \<open>stop_workers\<close>, or the scheduler lets a worker thread take a step. A
  list of events is one interleaving of the threads.
\<close>

datatype event = StartWorkers int | Put task | StopWorkers | Step nat

fun fire :: "(rng \<Rightarrow> task \<Rightarrow> nat \<Rightarrow> (exn + pyval) \<times> rng) \<Rightarrow> analyzer \<Rightarrow> event \<Rightarrow> analyzer" where
  "fire proc s (StartWorkers count) = start_workers count s"
| "fire proc s (Put t) = s\<lparr>event_queue := queue_put (event_queue s) t\<rparr>"
| "fire proc s StopWorkers = stop_workers s"
| "fire proc s (Step k) = worker_step proc k s"

definition run :: "(rng \<Rightarrow> task \<Rightarrow> nat \<Rightarrow> (exn + pyval) \<times> rng) \<Rightarrow> event list \<Rightarrow> analyzer \<Rightarrow> analyzer" where
  "run proc evs s = foldl (fire proc) s evs"






text \<open>The analyzer on a machine with 4 processors, and a run in which one worker records one result.\<close>

definition demo_init :: analyzer where
  "demo_init = init (Some 4) counting_rng"


text \<open>A computation that fails.\<close>

definition failing_proc :: "rng \<Rightarrow> task \<Rightarrow> nat \<Rightarrow> (exn + pyval) \<times> rng" where
  "failing_proc g t w = (Inl ValueError, g)"

text \<open>One worker waiting in \<open>get\<close> on an empty queue, and one about to compute a task.\<close>

definition waiting_state :: analyzer where
  "waiting_state = run failing_proc [StartWorkers 1, Step 0] demo_init"

definition executing_state :: analyzer where
  "executing_state = run failing_proc [StartWorkers 1, Put empty_task, Step 0, Step 0] demo_init"


text \<open>A computation that raises \<open>queue.Empty\<close> itself.\<close>

definition empty_raising_proc :: "rng \<Rightarrow> task \<Rightarrow> nat \<Rightarrow> (exn + pyval) \<times> rng" where
  "empty_raising_proc g t w = (Inl Empty, g)"

section \<open>Decimal strings\<close>

lemma str_nat_small: "n < 10 \<Longrightarrow> str_nat n = [digit_char n]"
  by (subst str_nat.simps) simp

lemma str_nat_big: "\<not> n < 10 \<Longrightarrow> str_nat n = str_nat (n div 10) @ [digit_char (n mod 10)]"
  by (subst str_nat.simps) simp

lemma str_nat_length_le: "0 < k \<Longrightarrow> n < 10 ^ k \<Longrightarrow> length (str_nat n) \<le> k"
proof (induction k arbitrary: n)
  case 0
  then show ?case by simp
next
  case (Suc k)
  show ?case
  proof (cases "n < 10")
    case True
    then show ?thesis by (simp add: str_nat_small)
  next
    case False
    with Suc.prems have k: "0 < k"
      by (cases k) simp_all
    from Suc.prems have "n div 10 < 10 ^ k"
      by (simp add: less_mult_imp_div_less mult.commute)
    from Suc.IH [OF k this] show ?thesis
      by (simp add: str_nat_big [OF False])
  qed
qed

lemma str_nat_length_gt: "10 ^ k \<le> n \<Longrightarrow> k < length (str_nat n)"
proof (induction k arbitrary: n)
  case 0
  show ?case
    by (cases "n < 10") (simp_all add: str_nat_small str_nat_big)
next
  case (Suc k)
  have "(1::nat) \<le> 10 ^ k"
    by simp
  then have "(10::nat) \<le> 10 ^ Suc k"
    by simp
  with Suc.prems have big: "\<not> n < 10"
    by linarith
  from Suc.prems have "10 ^ k \<le> n div 10"
    by (simp add: less_eq_div_iff_mult_less_eq mult.commute)
  from Suc.IH [OF this] show ?case
    by (simp add: str_nat_big [OF big])
qed

lemma py_str_int_short:
  assumes "0 < k" and "k \<le> 4300" and "\<bar>i\<bar> < 10 ^ k"
  shows "py_str_int i = Inr (decimal i)"
proof -
  from assms(3) have "nat \<bar>i\<bar> < 10 ^ k"
    by (simp add: nat_less_iff)
  from str_nat_length_le [OF assms(1) this] assms(2) show ?thesis
    by (simp add: py_str_int_def)
qed

lemma py_str_int_long:
  assumes "10 ^ 4300 \<le> nat \<bar>i\<bar>"
  shows "py_str_int i = Inl ValueError"
  using str_nat_length_gt [OF assms] by (simp add: py_str_int_def)

lemma nat_abs_power: "nat \<bar>(int b) ^ n\<bar> = b ^ n"
  by (simp flip: of_nat_power)

lemma huge_id_int: "huge_id = int 10 ^ 4300"
  unfolding huge_id_def by (simp only: of_nat_numeral)

lemma huge_id_digits: "10 ^ 4300 \<le> nat \<bar>huge_id\<bar>"
  by (simp only: huge_id_int nat_abs_power order_refl)

lemma huge_id_negative_digits: "10 ^ 4300 \<le> nat \<bar>- huge_id\<bar>"
  by (simp only: abs_minus_cancel huge_id_digits)

section \<open>The draws in closed form\<close>

lemma random_randint_ok:
  "a \<le> b \<Longrightarrow> random_randint a b g = (Inr (a + int (tape g (pos g)) mod (b - a + 1)), g\<lparr>pos := Suc (pos g)\<rparr>)"
  by (simp add: random_randint_def next_raw_def)

lemma randint_draws_eq:
  "randint_draws n g =
     (Inr (map (\<lambda>k. 1 + int (tape g (pos g + k)) mod 100) [0..<n]), g\<lparr>pos := pos g + n\<rparr>)"
proof (induction n arbitrary: g)
  case 0
  then show ?case by simp
next
  case (Suc n)
  have "map (\<lambda>k. 1 + int (tape g (pos g + k)) mod 100) [0..<Suc n] =
        (1 + int (tape g (pos g)) mod 100) # map (\<lambda>k. 1 + int (tape g (Suc (pos g) + k)) mod 100) [0..<n]"
    by (simp add: upt_conv_Cons map_Suc_upt [symmetric] del: upt_Suc)
  then show ?case
    by (simp add: random_randint_ok Suc.IH del: upt_Suc)
qed

lemma random_draws_eq:
  "random_draws n g =
     (map (\<lambda>k. Fract (int (tape g (pos g + k) mod 2 ^ 53)) (2 ^ 53)) [0..<n], g\<lparr>pos := pos g + n\<rparr>)"
proof (induction n arbitrary: g)
  case 0
  then show ?case by simp
next
  case (Suc n)
  have "map (\<lambda>k. Fract (int (tape g (pos g + k) mod 2 ^ 53)) (2 ^ 53)) [0..<Suc n] =
        Fract (int (tape g (pos g) mod 2 ^ 53)) (2 ^ 53)
          # map (\<lambda>k. Fract (int (tape g (Suc (pos g) + k) mod 2 ^ 53)) (2 ^ 53)) [0..<n]"
    by (simp add: upt_conv_Cons map_Suc_upt [symmetric] del: upt_Suc)
  then show ?case
    by (simp add: random_random_def next_raw_def Suc.IH del: upt_Suc)
qed

lemma length_sort_array: "length (sort_array g) = 5000"
  by (simp add: sort_array_def random_draws_eq)

lemma id_draw: "random_randint 1 1000000 g = (Inr (1 + int (tape g (pos g)) mod 1000000), after_id_draw g)"
  by (simp add: random_randint_ok after_id_draw_def next_raw_def)



lemma random_value_range:
  "0 \<le> Fract (int (r mod 2 ^ 53)) (2 ^ 53) \<and> Fract (int (r mod 2 ^ 53)) (2 ^ 53) < 1"
  by (simp add: zero_le_Fract_iff Fract_less_one_iff)

lemma list_index_ok: "0 \<le> i \<Longrightarrow> i < int (length xs) \<Longrightarrow> list_index xs i = Inr (xs ! nat i)"
  by (simp add: list_index_def)

lemma sort_branch:
  "(case random_draws 5000 (after_id_draw g) of (arr, g2) \<Rightarrow>
      (case list_index (sort arr) (int (length arr) div 2) of
         Inl e \<Rightarrow> (Inl e, g2)
       | Inr x \<Rightarrow> (Inr (PyFloat x), g2)))
   = (Inr (PyFloat (sort (sort_array g) ! 2500)), snd (random_draws 5000 (after_id_draw g)))"
proof -
  obtain arr g2 where d: "random_draws 5000 (after_id_draw g) = (arr, g2)"
    by (cases "random_draws 5000 (after_id_draw g)")
  have arr: "arr = sort_array g"
    by (simp add: sort_array_def d)
  have len: "length arr = 5000"
    by (simp add: arr length_sort_array)
  have "list_index (sort arr) (int (length arr) div 2) = Inr (sort arr ! nat 2500)"
    by (simp add: len list_index_ok)
  then show ?thesis
    by (simp add: d arr)
qed

section \<open>Task processing\<close>



lemma process_task_hash:
  assumes "type_field t = Some ''hash''" and "id_field t = Some i"
  shows "process_task sha256 g t w =
           (case py_str_int i of
              Inl e \<Rightarrow> (Inl e, after_id_draw g)
            | Inr str \<Rightarrow> (Inr (PyStr (hexdigest (sha256 (encode str)))), after_id_draw g))"
  using assms by (simp add: process_task_def id_draw)

lemma str_huge: "py_str_int huge_id = Inl ValueError"
  by (rule py_str_int_long [OF huge_id_digits])

lemma str_huge_negative: "py_str_int (- huge_id) = Inl ValueError"
  by (rule py_str_int_long [OF huge_id_negative_digits])

lemma digits_huge: "4300 < length (str_nat (nat \<bar>huge_id\<bar>))"
  by (rule str_nat_length_gt [OF huge_id_digits])

lemma digits_42: "length (str_nat (nat \<bar>42\<bar>)) \<le> 4300"
  using str_nat_length_le [of 2 42] by simp

text \<open>
  C2, as the specification states it, fails for an id of more than 4300 decimal digits:
  \<open>str(task_id)\<close> raises \<open>ValueError\<close> and the task returns no digest.
\<close>

theorem hash_huge_id_counterexample:
  "fst (process_task id counting_rng (hash_task huge_id) 0) = Inl ValueError"
  by (simp add: process_task_hash [of _ huge_id] hash_task_def str_huge)

text \<open>
  C2, amended. A task of type \<open>'hash'\<close> whose id \<open>i\<close> has at most 4300 decimal
  digits returns the hex digest of the SHA-256 function applied to the encoded decimal
  string of \<open>i\<close>; the result depends neither on the generator nor on the worker, so two
  runs on the same id give the same digest, and for id 42 the digested string is
  \<open>''42''\<close>. For an id of more digits \<open>str\<close> raises \<open>ValueError\<close>.
\<close>

theorem hash_result:
  assumes "type_field t = Some ''hash''" and "id_field t = Some i"
  shows "(length (str_nat (nat \<bar>i\<bar>)) \<le> 4300 \<longrightarrow>
            fst (process_task sha256 g t w) = Inr (PyStr (hexdigest (sha256 (encode (decimal i)))))
            \<and> fst (process_task sha256 g t w) = fst (process_task sha256 g' t w'))
       \<and> (4300 < length (str_nat (nat \<bar>i\<bar>)) \<longrightarrow>
            fst (process_task sha256 g t w) = Inl ValueError)
       \<and> decimal 42 = ''42''"
proof -
  have "decimal 42 = ''42''"
    by code_simp
  then show ?thesis
    by (simp add: process_task_hash [OF assms] py_str_int_def)
qed

theorem hash_result_witness:
  "type_field (hash_task 42) = Some ''hash'' \<and> id_field (hash_task 42) = Some 42
   \<and> length (str_nat (nat \<bar>42\<bar>)) \<le> 4300
   \<and> fst (process_task id counting_rng (hash_task 42) 0) = Inr (PyStr (hexdigest (id (encode (decimal 42)))))
   \<and> fst (process_task id counting_rng (hash_task 42) 0)
       = fst (process_task id (counting_rng\<lparr>pos := 5\<rparr>) (hash_task 42) 1)
   \<and> type_field (hash_task huge_id) = Some ''hash''
   \<and> id_field (hash_task huge_id) = Some huge_id
   \<and> 4300 < length (str_nat (nat \<bar>huge_id\<bar>))
   \<and> fst (process_task id (counting_rng\<lparr>pos := 5\<rparr>) (hash_task huge_id) 1) = Inl ValueError"
proof -
  have h1: "type_field (hash_task j) = Some ''hash''" and h2: "id_field (hash_task j) = Some j" for j
    by (simp_all add: hash_task_def)
  show ?thesis
    using h1 h2 digits_42 digits_huge
      hash_result [OF h1 [of 42] h2 [of 42], of id counting_rng 0 "counting_rng\<lparr>pos := 5\<rparr>" 1]
      hash_result [OF h1 [of huge_id] h2 [of huge_id], of id "counting_rng\<lparr>pos := 5\<rparr>" 1]
    by blast
qed

lemma process_task_sort:
  assumes "type_field t = Some ''sort''"
  shows "process_task sha256 g t w
       = (Inr (PyFloat (sort (sort_array g) ! 2500)), snd (random_draws 5000 (after_id_draw g)))"
  using assms by (simp add: process_task_def id_draw sort_branch)

lemma process_task_default:
  assumes "type_field t = None"
  shows "process_task sha256 g t w
       = (Inr (PyFloat (fst (random_random (after_id_draw g)))), snd (random_random (after_id_draw g)))"
  using assms by (simp add: process_task_def id_draw split: prod.split)

lemma sort_array_counting:
  "sort_array counting_rng = map (\<lambda>k. Fract (int (Suc k)) (2 ^ 53)) [0..<5000]"
proof -
  have "sort_array counting_rng = map (\<lambda>k. Fract (int (Suc k mod 2 ^ 53)) (2 ^ 53)) [0..<5000]"
    by (simp add: sort_array_def random_draws_eq after_id_draw_def next_raw_def counting_rng_def)
  also have "\<dots> = map (\<lambda>k. Fract (int (Suc k)) (2 ^ 53)) [0..<5000]"
  proof (rule map_cong [OF refl])
    fix k :: nat assume "k \<in> set [0..<5000]"
    then have "Suc k < 2 ^ 53" by simp
    then show "Fract (int (Suc k mod 2 ^ 53)) (2 ^ 53) = Fract (int (Suc k)) (2 ^ 53)"
      by simp
  qed
  finally show ?thesis .
qed

lemma sorted_counting: "sorted (map (\<lambda>k. Fract (int (Suc k)) (2 ^ 53)) [0..<n])"
proof -
  have "sorted_wrt (\<lambda>i j. Fract (int (Suc i)) (2 ^ 53) \<le> Fract (int (Suc j)) (2 ^ 53)) [0..<n]"
    by (rule sorted_wrt_mono_rel [OF _ sorted_wrt_upt]) simp
  then show ?thesis
    by (simp add: sorted_map)
qed

lemma sort_counting: "sort (sort_array counting_rng) = sort_array counting_rng"
  unfolding sort_array_counting by (rule sorted_sort_id [OF sorted_counting])

text \<open>
  C1, as the specification states it, fails: on the tape \<open>0, 1, 2, \<dots>\<close> the generated
  array is increasing, its lower median is the element at index 2499, and the task returns
  the element at index 2500.
\<close>

theorem sort_lower_median_counterexample:
  "fst (process_task id counting_rng sort_task 0)
     \<noteq> Inr (PyFloat (lower_median (sort_array counting_rng)))"
proof -
  have t: "type_field sort_task = Some ''sort''"
    by (simp add: sort_task_def)
  have a: "sort (sort_array counting_rng) ! 2500 = Fract 2501 (2 ^ 53)"
    by (simp add: sort_counting) (simp add: sort_array_counting del: upt_Suc)
  have b: "lower_median (sort_array counting_rng) = Fract 2500 (2 ^ 53)"
    by (simp add: lower_median_def sort_counting length_sort_array)
       (simp add: sort_array_counting del: upt_Suc)
  have "Fract 2501 (2 ^ 53) \<noteq> (Fract 2500 (2 ^ 53) :: rat)"
    by (simp add: eq_rat)
  then show ?thesis
    by (simp add: process_task_sort [OF t] a b)
qed

text \<open>
  C1, amended. A task of type \<open>'sort'\<close> returns the element at index
  \<open>len(arr) // 2 = 2500\<close> (counted from 0) of the sorted 5000-element array it
  generated: the upper of the two middle positions 2499 and 2500.
\<close>

theorem sort_result_upper_median:
  assumes "type_field t = Some ''sort''"
  shows "fst (process_task sha256 g t w) = Inr (PyFloat (sort (sort_array g) ! 2500))
       \<and> length (sort_array g) = 5000
       \<and> length (sort_array g) div 2 = 2500
       \<and> (length (sort_array g) - 1) div 2 = 2499"
  using assms by (simp add: process_task_sort length_sort_array)

theorem sort_result_upper_median_witness:
  "type_field sort_task = Some ''sort''
   \<and> fst (process_task id counting_rng sort_task 0)
       = Inr (PyFloat (sort (sort_array counting_rng) ! 2500))
   \<and> length (sort_array counting_rng) = 5000"
proof -
  have h: "type_field sort_task = Some ''sort''"
    by (simp add: sort_task_def)
  show ?thesis
    using h sort_result_upper_median [OF h, of id counting_rng 0] by blast
qed

lemma process_task_hash_any:
  assumes "type_field t = Some ''hash''"
  shows "process_task sha256 g t w =
           (case py_str_int (case id_field t of None \<Rightarrow> 1 + int (tape g (pos g)) mod 1000000 | Some i \<Rightarrow> i) of
              Inl e \<Rightarrow> (Inl e, after_id_draw g)
            | Inr str \<Rightarrow> (Inr (PyStr (hexdigest (sha256 (encode str)))), after_id_draw g))"
  using assms by (simp add: process_task_def id_draw)

lemma drawn_id_str:
  "py_str_int (1 + int (tape g (pos g)) mod 1000000) = Inr (decimal (1 + int (tape g (pos g)) mod 1000000))"
proof (rule py_str_int_short [of 7])
  have "0 \<le> int (tape g (pos g)) mod 1000000" "int (tape g (pos g)) mod 1000000 < 1000000"
    by simp_all
  then show "\<bar>1 + int (tape g (pos g)) mod 1000000\<bar> < 10 ^ 7"
    by simp
qed simp_all

lemma process_task_returns:
  assumes "type_field t \<noteq> Some ''hash'' \<or> short_id t"
  shows "\<exists>r g'. process_task sha256 g t w = (Inr r, g')"
proof (cases "type_field t")
  case None
  then show ?thesis
    by (simp add: process_task_default)
next
  case (Some s)
  consider "s = ''hash''" | "s = ''math''" | "s = ''sort''"
    | "s \<noteq> ''hash''" "s \<noteq> ''math''" "s \<noteq> ''sort''"
    by blast
  then show ?thesis
  proof cases
    case 1
    with Some assms have short: "short_id t" by simp
    show ?thesis
    proof (cases "id_field t")
      case None
      with Some 1 show ?thesis
        by (simp add: process_task_hash_any drawn_id_str)
    next
      case (Some i)
      with short have "py_str_int i = Inr (decimal i)"
        by (simp add: short_id_def py_str_int_def)
      with Some \<open>type_field t = Some s\<close> 1 show ?thesis
        by (simp add: process_task_hash_any)
    qed
  next
    case 2
    with Some show ?thesis
      by (simp add: process_task_def id_draw randint_draws_eq)
  next
    case 3
    with Some show ?thesis
      by (simp add: process_task_sort)
  next
    case 4
    with Some show ?thesis
      by (simp add: process_task_def id_draw split_beta)
  qed
qed

text \<open>
  C10, as the specification states it, fails: a task of type \<open>'hash'\<close> whose id has more
  than 4300 decimal digits makes \<open>process_task\<close> raise \<open>ValueError\<close>.
\<close>

theorem process_task_raises_counterexample:
  "fst (process_task id counting_rng (hash_task (- huge_id)) 3) = Inl ValueError"
  by (simp add: process_task_hash [of _ "- huge_id"] hash_task_def str_huge_negative)

text \<open>
  C10, amended. For a task whose \<open>'type'\<close>, when present, is a string and whose
  \<open>'id'\<close>, when present, is an integer, \<open>process_task\<close> returns a result without
  raising, for every worker id and every state of the generator, unless the type is
  \<open>'hash'\<close> and the id has more than 4300 decimal digits. A task without \<open>'type'\<close>
  takes the default branch and yields the float that \<open>random.random()\<close> draws next
  after the draw for the default id, a value in \<open>[0, 1)\<close>. A task without \<open>'id'\<close> is
  processed exactly as the same task with the id \<open>d\<close> drawn by
  \<open>random.randint(1, 1000000)\<close>, which lies between 1 and 1000000; it returns a result,
  and when its type is \<open>'hash'\<close> the result is the digest of the decimal string of
  \<open>d\<close>.
\<close>

theorem process_task_total:
  "((type_field t \<noteq> Some ''hash'' \<or> short_id t) \<longrightarrow>
        (\<exists>r g'. process_task sha256 g t w = (Inr r, g')))
   \<and> (type_field t = None \<longrightarrow>
        process_task sha256 g t w
          = (Inr (PyFloat (fst (random_random (after_id_draw g)))), snd (random_random (after_id_draw g)))
        \<and> 0 \<le> fst (random_random (after_id_draw g)) \<and> fst (random_random (after_id_draw g)) < 1)
   \<and> (\<exists>d. random_randint 1 1000000 g = (Inr d, after_id_draw g) \<and> 1 \<le> d \<and> d \<le> 1000000
        \<and> (id_field t = None \<longrightarrow>
             process_task sha256 g t w = process_task sha256 g (t\<lparr>id_field := Some d\<rparr>) w
             \<and> (\<exists>r g'. process_task sha256 g t w = (Inr r, g'))
             \<and> (type_field t = Some ''hash'' \<longrightarrow>
                  fst (process_task sha256 g t w)
                    = Inr (PyStr (hexdigest (sha256 (encode (decimal d))))))))"
proof (intro conjI)
  show "(type_field t \<noteq> Some ''hash'' \<or> short_id t) \<longrightarrow>
        (\<exists>r g'. process_task sha256 g t w = (Inr r, g'))"
    using process_task_returns by blast
next
  show "type_field t = None \<longrightarrow>
        process_task sha256 g t w
          = (Inr (PyFloat (fst (random_random (after_id_draw g)))), snd (random_random (after_id_draw g)))
        \<and> 0 \<le> fst (random_random (after_id_draw g)) \<and> fst (random_random (after_id_draw g)) < 1"
    using random_value_range
    by (simp add: process_task_default random_random_def next_raw_def)
next
  let ?d = "1 + int (tape g (pos g)) mod 1000000"
  have "0 \<le> int (tape g (pos g)) mod 1000000" "int (tape g (pos g)) mod 1000000 < 1000000"
    by simp_all
  then have lo: "1 \<le> ?d" and hi: "?d \<le> 1000000"
    by linarith+
  have rest: "id_field t = None \<longrightarrow>
      process_task sha256 g t w = process_task sha256 g (t\<lparr>id_field := Some ?d\<rparr>) w
      \<and> (\<exists>r g'. process_task sha256 g t w = (Inr r, g'))
      \<and> (type_field t = Some ''hash'' \<longrightarrow>
           fst (process_task sha256 g t w) = Inr (PyStr (hexdigest (sha256 (encode (decimal ?d))))))"
  proof (intro impI conjI)
    assume none: "id_field t = None"
    then show "process_task sha256 g t w = process_task sha256 g (t\<lparr>id_field := Some ?d\<rparr>) w"
      by (simp add: process_task_def id_draw)
    from none have "short_id t"
      by (simp add: short_id_def)
    then show "\<exists>r g'. process_task sha256 g t w = (Inr r, g')"
      using process_task_returns by blast
    assume "type_field t = Some ''hash''"
    with none show "fst (process_task sha256 g t w) = Inr (PyStr (hexdigest (sha256 (encode (decimal ?d)))))"
      by (simp add: process_task_hash_any drawn_id_str)
  qed
  show "\<exists>d. random_randint 1 1000000 g = (Inr d, after_id_draw g) \<and> 1 \<le> d \<and> d \<le> 1000000
        \<and> (id_field t = None \<longrightarrow>
             process_task sha256 g t w = process_task sha256 g (t\<lparr>id_field := Some d\<rparr>) w
             \<and> (\<exists>r g'. process_task sha256 g t w = (Inr r, g'))
             \<and> (type_field t = Some ''hash'' \<longrightarrow>
                  fst (process_task sha256 g t w)
                    = Inr (PyStr (hexdigest (sha256 (encode (decimal d)))))))"
    by (rule exI, intro conjI) (rule id_draw, rule lo, rule hi, rule rest)
qed

theorem process_task_total_witness:
  "type_field empty_task \<noteq> Some ''hash'' \<and> type_field empty_task = None \<and> id_field empty_task = None
   \<and> (\<exists>r g'. process_task id counting_rng empty_task 0 = (Inr r, g'))
   \<and> process_task id counting_rng empty_task 0
       = (Inr (PyFloat (fst (random_random (after_id_draw counting_rng)))),
          snd (random_random (after_id_draw counting_rng)))
   \<and> 0 \<le> fst (random_random (after_id_draw counting_rng))
   \<and> fst (random_random (after_id_draw counting_rng)) < 1
   \<and> (\<exists>d. random_randint 1 1000000 counting_rng = (Inr d, after_id_draw counting_rng)
        \<and> 1 \<le> d \<and> d \<le> 1000000
        \<and> process_task id counting_rng empty_task 0
            = process_task id counting_rng (empty_task\<lparr>id_field := Some d\<rparr>) 0)
   \<and> type_field (hash_task 42) = Some ''hash'' \<and> short_id (hash_task 42)
   \<and> (\<exists>r g'. process_task id counting_rng (hash_task 42) 0 = (Inr r, g'))"
proof -
  have h1: "type_field empty_task \<noteq> Some ''hash''" "type_field empty_task = None"
    and h2: "id_field empty_task = None"
    by (simp_all add: empty_task_def)
  have h3: "type_field (hash_task 42) = Some ''hash''" "short_id (hash_task 42)"
    using digits_42 by (simp_all add: hash_task_def short_id_def)
  show ?thesis
    using h1 h2 h3 process_task_total [of empty_task id counting_rng 0]
      process_task_total [of "hash_task 42" id counting_rng 0]
    by blast
qed

section \<open>The queue\<close>

lemma queue_gets_items:
  "n \<le> length (items q) \<Longrightarrow>
     queue_gets n q = (map Inr (take n (items q)), q\<lparr>items := drop n (items q)\<rparr>)"
proof (induction n arbitrary: q)
  case 0
  then show ?case by simp
next
  case (Suc n)
  then obtain t ts where q: "items q = t # ts"
    by (cases "items q") auto
  with Suc.prems have "n \<le> length (items (q\<lparr>items := ts\<rparr>))"
    by simp
  from Suc.IH [OF this] q show ?case
    by (simp add: queue_get_def)
qed

lemma items_puts: "items (foldl queue_put q ts) = items q @ ts"
  by (induction ts arbitrary: q) (simp_all add: queue_put_def)

text \<open>
  C6. Tasks put on an empty queue in the order \<open>t1 \<dots> tn\<close> come back from \<open>n\<close>
  successive calls of \<open>get\<close> by a single consumer as exactly \<open>t1 \<dots> tn\<close>, in that
  order, each once, and the queue is then empty.
\<close>

theorem queue_fifo:
  "fst (queue_gets (length ts) (foldl queue_put new_queue ts)) = map Inr ts
   \<and> items (snd (queue_gets (length ts) (foldl queue_put new_queue ts))) = []"
proof -
  have "length ts \<le> length (items (foldl queue_put new_queue ts))"
    by (simp add: items_puts)
  from queue_gets_items [OF this] show ?thesis
    by (simp add: items_puts new_queue_def)
qed

section \<open>Starting and stopping the pool\<close>

lemma foldl_spawn:
  "foldl spawn s js = s\<lparr>workers := workers s @ map (\<lambda>i. \<lparr>worker_id = i, daemon = True, pc = LoopHead\<rparr>) js\<rparr>"
  by (induction js arbitrary: s) (simp_all add: spawn_def)

lemma start_workers_eq:
  "start_workers count s =
     s\<lparr>workers := workers s @ map (\<lambda>i. \<lparr>worker_id = i, daemon = True, pc = LoopHead\<rparr>)
                                   [0..<nat (min count (int (cpu_count s)))]\<rparr>"
  by (simp add: start_workers_def foldl_spawn)

lemma set_pc_fields:
  "running (set_pc k p s) = running s"
  "metrics (set_pc k p s) = metrics s"
  "event_queue (set_pc k p s) = event_queue s"
  "cpu_count (set_pc k p s) = cpu_count s"
  "random_state (set_pc k p s) = random_state s"
  "length (workers (set_pc k p s)) = length (workers s)"
  by (simp_all add: set_pc_def)


lemma running_worker_step: "running (worker_step proc k s) = running s"
  by (simp add: worker_step_def set_pc_fields split: pc.split prod.split sum.split)

lemma running_fire: "\<not> running s \<Longrightarrow> \<not> running (fire proc s ev)"
  by (cases ev) (simp_all add: start_workers_eq stop_workers_def running_worker_step)

lemma running_run: "\<not> running s \<Longrightarrow> \<not> running (run proc evs s)"
  unfolding run_def by (induction evs arbitrary: s) (simp_all add: running_fire)

text \<open>
  C4, as the specification states it, fails for a negative count: \<open>start_workers(-1)\<close>
  on a machine with 4 processors spawns no worker, and \<open>min(-1, 4)\<close> is \<open>-1\<close>.
\<close>

theorem start_workers_negative_counterexample:
  "int (length (workers (start_workers (- 1) (init (Some 4) counting_rng))))
     \<noteq> min (- 1) (int (cpu_count (init (Some 4) counting_rng)))"
  by (simp add: start_workers_eq init_def)

text \<open>
  C4, amended. \<open>start_workers(count)\<close> spawns exactly \<open>max(0, min(count, cpu_count))\<close>
  workers, none for a negative count; the new workers receive the identities
  \<open>0, \<dots>, m - 1\<close> in this order, all distinct, where \<open>m\<close> is the number spawned, each
  starts at the head of its loop as a daemon thread, and the handle of each is appended to
  \<open>self.workers\<close>, after the handles already there.
\<close>

theorem start_workers_spawns:
  "workers (start_workers count s)
     = workers s @ map (\<lambda>i. \<lparr>worker_id = i, daemon = True, pc = LoopHead\<rparr>)
                      [0..<nat (max 0 (min count (int (cpu_count s))))]
   \<and> length (workers (start_workers count s))
     = length (workers s) + nat (max 0 (min count (int (cpu_count s))))
   \<and> map worker_id (drop (length (workers s)) (workers (start_workers count s)))
     = [0..<nat (max 0 (min count (int (cpu_count s))))]
   \<and> distinct (map worker_id (drop (length (workers s)) (workers (start_workers count s))))"
proof -
  have m: "nat (max 0 (min count (int (cpu_count s)))) = nat (min count (int (cpu_count s)))"
    by simp
  show ?thesis
    unfolding m by (simp add: start_workers_eq comp_def del: upt_Suc)
qed

text \<open>
  C8. The flag \<open>running\<close> is true after construction, \<open>stop_workers\<close> makes it
  false, and after \<open>stop_workers\<close> it stays false whatever follows: further calls of
  \<open>start_workers\<close> and \<open>stop_workers\<close>, tasks put on the queue, and steps of the
  workers, in any interleaving.
\<close>

theorem running_one_way:
  "running (init c g) = True
   \<and> running (stop_workers s) = False
   \<and> running (run proc evs (stop_workers s)) = False"
proof -
  have "\<not> running (stop_workers s)"
    by (simp add: stop_workers_def)
  from running_run [OF this] this show ?thesis
    by (simp add: init_def)
qed

section \<open>Results and tasks\<close>












section \<open>Concrete states\<close>

lemma waiting_state_eq:
  "waiting_state =
     \<lparr>cpu_count = 4, metrics = [], event_queue = \<lparr>items = [], unfinished_tasks = 0\<rparr>,
      workers = [\<lparr>worker_id = 0, daemon = True, pc = Getting\<rparr>],
      running = True, random_state = counting_rng\<rparr>"
  by (simp add: waiting_state_def run_def demo_init_def init_def start_workers_eq worker_step_def
        set_pc_def new_queue_def)

lemma executing_state_eq:
  "executing_state =
     \<lparr>cpu_count = 4, metrics = [], event_queue = \<lparr>items = [], unfinished_tasks = 1\<rparr>,
      workers = [\<lparr>worker_id = 0, daemon = True, pc = Executing empty_task\<rparr>],
      running = True, random_state = counting_rng\<rparr>"
  by (simp add: executing_state_def run_def demo_init_def init_def start_workers_eq worker_step_def
        set_pc_def new_queue_def queue_put_def queue_get_def)

section \<open>The keys of the metrics\<close>
















section \<open>Exceptions in the worker loop\<close>

lemma set_pc_other: "j \<noteq> k \<Longrightarrow> workers (set_pc j p s) ! k = workers s ! k"
  by (simp add: set_pc_def)

lemma worker_step_other:
  "j \<noteq> k \<Longrightarrow> workers (worker_step proc j s) ! k = workers s ! k"
  by (simp add: worker_step_def set_pc_other split: pc.split prod.split sum.split)

lemma worker_step_length: "length (workers (worker_step proc j s)) = length (workers s)"
  by (simp add: worker_step_def set_pc_fields split: pc.split prod.split sum.split)

lemma worker_step_died:
  "pc (workers s ! k) = Died e \<Longrightarrow> worker_step proc k s = s"
  by (simp add: worker_step_def)

lemma died_fire:
  assumes "k < length (workers s)" and "pc (workers s ! k) = Died e"
  shows "k < length (workers (fire proc s ev)) \<and> pc (workers (fire proc s ev) ! k) = Died e"
proof (cases ev)
  case (StartWorkers count)
  with assms show ?thesis
    by (simp add: start_workers_eq nth_append)
next
  case (Put t)
  with assms show ?thesis by simp
next
  case StopWorkers
  with assms show ?thesis by (simp add: stop_workers_def)
next
  case (Step j)
  show ?thesis
  proof (cases "j = k")
    case True
    with Step assms show ?thesis by (simp add: worker_step_died)
  next
    case False
    with Step assms show ?thesis by (simp add: worker_step_other worker_step_length)
  qed
qed

lemma died_run:
  "k < length (workers s) \<Longrightarrow> pc (workers s ! k) = Died e \<Longrightarrow>
     k < length (workers (run proc evs s)) \<and> pc (workers (run proc evs s) ! k) = Died e"
  unfolding run_def
proof (induction evs arbitrary: s)
  case Nil
  then show ?case by simp
next
  case (Cons ev evs)
  from died_fire [OF Cons.prems, of proc ev]
  have "k < length (workers (fire proc s ev))" "pc (workers (fire proc s ev) ! k) = Died e"
    by simp_all
  from Cons.IH [OF this] show ?case by simp
qed

text \<open>
  C5, as the specification states it, fails for one failure: \<open>process_task\<close> is
  called inside the \<open>try\<close>, so a \<open>queue.Empty\<close> raised by the computation is
  caught; the worker is back at the loop test and goes on to call \<open>get\<close> again.
\<close>

theorem worker_empty_failure_counterexample:
  "pc (workers executing_state ! 0) = Executing empty_task
   \<and> empty_raising_proc (random_state executing_state) empty_task (worker_id (workers executing_state ! 0))
       = (Inl Empty, random_state executing_state)
   \<and> pc (workers (worker_step empty_raising_proc 0 executing_state) ! 0) = LoopHead
   \<and> pc (workers (worker_step empty_raising_proc 0 (worker_step empty_raising_proc 0 executing_state)) ! 0)
       = Getting"
  by (simp add: executing_state_eq empty_raising_proc_def worker_step_def set_pc_def handler_def)

text \<open>
  C5, amended. In the worker loop, \<open>queue.Empty\<close> raised by \<open>get\<close> on an empty queue
  is caught: the thread is back at the loop test, nothing else has changed, and while
  \<open>running\<close> is set it calls \<open>get\<close> again. A failure of the task computation is not
  caught unless it is \<open>queue.Empty\<close> itself: any other failure ends the thread, which
  stays ended through every later event; apart from the generator state left by the
  computation, the step changes nothing but that thread's position, so the flag, the queue,
  the metrics and the other handles carry no trace of the failure. A \<open>queue.Empty\<close>
  raised by the computation is caught by the same handler: no result is recorded for the
  task and the thread is back at the loop test.
\<close>

theorem worker_exceptions:
  assumes "k < length (workers s)"
  shows "(pc (workers s ! k) = Getting \<and> items (event_queue s) = [] \<longrightarrow>
            worker_step proc k s = set_pc k LoopHead s
            \<and> (running s \<longrightarrow> pc (workers (worker_step proc k (worker_step proc k s)) ! k) = Getting))
       \<and> (pc (workers s ! k) = Executing t
            \<and> proc (random_state s) t (worker_id (workers s ! k)) = (Inl e, g) \<and> e \<noteq> Empty \<longrightarrow>
            worker_step proc k s = set_pc k (Died e) (s\<lparr>random_state := g\<rparr>)
            \<and> pc (workers (run proc evs (worker_step proc k s)) ! k) = Died e
            \<and> running (worker_step proc k s) = running s
            \<and> metrics (worker_step proc k s) = metrics s
            \<and> event_queue (worker_step proc k s) = event_queue s
            \<and> length (workers (worker_step proc k s)) = length (workers s))
       \<and> (pc (workers s ! k) = Executing t
            \<and> proc (random_state s) t (worker_id (workers s ! k)) = (Inl Empty, g) \<longrightarrow>
            worker_step proc k s = set_pc k LoopHead (s\<lparr>random_state := g\<rparr>))"
proof (intro conjI impI)
  assume a: "pc (workers s ! k) = Getting \<and> items (event_queue s) = []"
  with assms show caught: "worker_step proc k s = set_pc k LoopHead s"
    by (simp add: worker_step_def queue_get_def handler_def set_pc_def)
  assume "running s"
  with assms show "pc (workers (worker_step proc k (worker_step proc k s)) ! k) = Getting"
    unfolding caught by (simp add: worker_step_def set_pc_def)
next
  assume b: "pc (workers s ! k) = Executing t
      \<and> proc (random_state s) t (worker_id (workers s ! k)) = (Inl e, g) \<and> e \<noteq> Empty"
  with assms show died: "worker_step proc k s = set_pc k (Died e) (s\<lparr>random_state := g\<rparr>)"
    by (simp add: worker_step_def handler_def)
  have "k < length (workers (worker_step proc k s))"
    and "pc (workers (worker_step proc k s) ! k) = Died e"
    using assms unfolding died by (simp_all add: set_pc_def)
  from died_run [OF this, of proc evs]
  show "pc (workers (run proc evs (worker_step proc k s)) ! k) = Died e"
    by simp
  show "running (worker_step proc k s) = running s"
    and "metrics (worker_step proc k s) = metrics s"
    and "event_queue (worker_step proc k s) = event_queue s"
    and "length (workers (worker_step proc k s)) = length (workers s)"
    unfolding died by (simp_all add: set_pc_fields)
next
  assume "pc (workers s ! k) = Executing t
      \<and> proc (random_state s) t (worker_id (workers s ! k)) = (Inl Empty, g)"
  with assms show "worker_step proc k s = set_pc k LoopHead (s\<lparr>random_state := g\<rparr>)"
    by (simp add: worker_step_def handler_def)
qed

theorem worker_exceptions_witness:
  "0 < length (workers waiting_state)
   \<and> pc (workers waiting_state ! 0) = Getting \<and> items (event_queue waiting_state) = []
   \<and> running waiting_state
   \<and> worker_step failing_proc 0 waiting_state = set_pc 0 LoopHead waiting_state
   \<and> pc (workers (worker_step failing_proc 0 (worker_step failing_proc 0 waiting_state)) ! 0) = Getting
   \<and> 0 < length (workers executing_state)
   \<and> pc (workers executing_state ! 0) = Executing empty_task
   \<and> failing_proc (random_state executing_state) empty_task (worker_id (workers executing_state ! 0))
       = (Inl ValueError, random_state executing_state)
   \<and> ValueError \<noteq> Empty
   \<and> worker_step failing_proc 0 executing_state
       = set_pc 0 (Died ValueError) (executing_state\<lparr>random_state := random_state executing_state\<rparr>)
   \<and> pc (workers (run failing_proc [Step 0, Put empty_task, StartWorkers 2, Step 0, StopWorkers]
                   (worker_step failing_proc 0 executing_state)) ! 0) = Died ValueError
   \<and> metrics (worker_step failing_proc 0 executing_state) = metrics executing_state
   \<and> empty_raising_proc (random_state executing_state) empty_task (worker_id (workers executing_state ! 0))
       = (Inl Empty, random_state executing_state)
   \<and> worker_step empty_raising_proc 0 executing_state
       = set_pc 0 LoopHead (executing_state\<lparr>random_state := random_state executing_state\<rparr>)"
proof -
  have w: "0 < length (workers waiting_state)"
    "pc (workers waiting_state ! 0) = Getting \<and> items (event_queue waiting_state) = []"
    "running waiting_state"
    by (simp_all add: waiting_state_eq)
  have x: "0 < length (workers executing_state)"
    "pc (workers executing_state ! 0) = Executing empty_task
     \<and> failing_proc (random_state executing_state) empty_task (worker_id (workers executing_state ! 0))
         = (Inl ValueError, random_state executing_state)
     \<and> ValueError \<noteq> Empty"
    by (simp_all add: executing_state_eq failing_proc_def)
  have y: "pc (workers executing_state ! 0) = Executing empty_task
     \<and> empty_raising_proc (random_state executing_state) empty_task (worker_id (workers executing_state ! 0))
         = (Inl Empty, random_state executing_state)"
    by (simp add: executing_state_eq empty_raising_proc_def)
  show ?thesis
    using w x y
      worker_exceptions [OF x(1), where proc = empty_raising_proc and t = empty_task
        and g = "random_state executing_state"]
      worker_exceptions [OF w(1), where proc = failing_proc]
      worker_exceptions [OF x(1), where proc = failing_proc and t = empty_task and e = ValueError
        and g = "random_state executing_state"
        and evs = "[Step 0, Put empty_task, StartWorkers 2, Step 0, StopWorkers]"]
    by blast
qed

end
